theory Spec2Isabelle
  imports Complex_Main
begin

section \<open>JavaScript values\<close>

text \<open>
  The sources are TypeScript running on Node. Values that reach the utilities are JSON-like
  (request bodies, MQTT messages) or database cells, so they are modelled by one datatype.
  A finite number is a rational (every finite double is one; the two zeros are not told apart,
  and no function below distinguishes them). The time value of a \<open>Date\<close> is a number, \<open>NaN\<close>
  for an invalid date. Strings are lists of characters.
\<close>

datatype jsnum = NaN | PosInf | NegInf | Fin rat

datatype jsval =
    JUndefined
  | JNull
  | JBool bool
  | JNum jsnum
  | JStr string
  | JDate jsnum
  | JArr "jsval list"
  | JObj "(string \<times> jsval) list"

datatype jserror = TypeError | DbError string

text \<open>
  What the engine computes and the repository does not define is a parameter: the text of a
  number, the number read from a string, \<open>Date.parse\<close>, the text of a date, and the
  conversion of an array or object to a primitive (its \<open>toString\<close>, which may throw).
\<close>

record js_builtins =
  numberToString :: "jsnum \<Rightarrow> string"
  stringToNumber :: "string \<Rightarrow> jsnum"
  dateParse :: "string \<Rightarrow> jsnum"
  dateToString :: "jsnum \<Rightarrow> string"
  objectToPrimitive :: "jsval \<Rightarrow> jserror + string"

definition dquote :: string where
  "dquote = [CHR 0x22]"

definition backslash :: char where
  "backslash = CHR 0x5C"

text \<open>\<open>"" + v\<close>: the string conversion of a value.\<close>

fun toStringJS :: "js_builtins \<Rightarrow> jsval \<Rightarrow> jserror + string" where
  "toStringJS env JUndefined = Inr ''undefined''"
| "toStringJS env JNull = Inr ''null''"
| "toStringJS env (JBool b) = Inr (if b then ''true'' else ''false'')"
| "toStringJS env (JNum n) = Inr (numberToString env n)"
| "toStringJS env (JStr s) = Inr s"
| "toStringJS env (JDate t) = Inr (dateToString env t)"
| "toStringJS env (JArr xs) = objectToPrimitive env (JArr xs)"
| "toStringJS env (JObj kvs) = objectToPrimitive env (JObj kvs)"

text \<open>\<open>Number(v)\<close>.\<close>

fun toNumberJS :: "js_builtins \<Rightarrow> jsval \<Rightarrow> jserror + jsnum" where
  "toNumberJS env JUndefined = Inr NaN"
| "toNumberJS env JNull = Inr (Fin 0)"
| "toNumberJS env (JBool b) = Inr (if b then Fin 1 else Fin 0)"
| "toNumberJS env (JNum n) = Inr n"
| "toNumberJS env (JStr s) = Inr (stringToNumber env s)"
| "toNumberJS env (JDate t) = Inr t"
| "toNumberJS env (JArr xs) =
     (case objectToPrimitive env (JArr xs) of Inl e \<Rightarrow> Inl e | Inr s \<Rightarrow> Inr (stringToNumber env s))"
| "toNumberJS env (JObj kvs) =
     (case objectToPrimitive env (JObj kvs) of Inl e \<Rightarrow> Inl e | Inr s \<Rightarrow> Inr (stringToNumber env s))"

text \<open>\<open>TimeClip\<close>: a time value is an integral number of milliseconds within range.\<close>

definition timeClip :: "jsnum \<Rightarrow> jsnum" where
  "timeClip n =
     (case n of
        Fin r \<Rightarrow> if \<bar>r\<bar> > 8640000000000000 then NaN
                 else Fin (of_int (if r < 0 then \<lceil>r\<rceil> else \<lfloor>r\<rfloor>))
      | _ \<Rightarrow> NaN)"

text \<open>The time value of \<open>new Date(v)\<close>.\<close>

fun newDate :: "js_builtins \<Rightarrow> jsval \<Rightarrow> jserror + jsnum" where
  "newDate env (JDate t) = Inr t"
| "newDate env (JStr s) = Inr (dateParse env s)"
| "newDate env (JArr xs) =
     (case objectToPrimitive env (JArr xs) of Inl e \<Rightarrow> Inl e | Inr s \<Rightarrow> Inr (dateParse env s))"
| "newDate env (JObj kvs) =
     (case objectToPrimitive env (JObj kvs) of Inl e \<Rightarrow> Inl e | Inr s \<Rightarrow> Inr (dateParse env s))"
| "newDate env v =
     (case toNumberJS env v of Inl e \<Rightarrow> Inl e | Inr n \<Rightarrow> Inr (timeClip n))"

fun isFinite :: "jsnum \<Rightarrow> bool" where
  "isFinite (Fin r) = True"
| "isFinite n = False"

text \<open>\<open>!!v\<close>.\<close>

fun truthy :: "jsval \<Rightarrow> bool" where
  "truthy JUndefined = False"
| "truthy JNull = False"
| "truthy (JBool b) = b"
| "truthy (JNum n) = (n \<noteq> NaN \<and> n \<noteq> Fin 0)"
| "truthy (JStr s) = (s \<noteq> [])"
| "truthy v = True"

text \<open>
  \<open>toLowerCase\<close>. A character is a code unit below 256; the capital letters among them
  are \<open>A\<close> to \<open>Z\<close> and \<open>0xC0\<close> to \<open>0xDE\<close> without \<open>0xD7\<close> (the multiplication sign), each
  32 below its small letter.
\<close>

definition lowerChar :: "char \<Rightarrow> char" where
  "lowerChar c =
     (case map_of
        (zip (''ABCDEFGHIJKLMNOPQRSTUVWXYZ'' @
         [CHR 0xC0, CHR 0xC1, CHR 0xC2, CHR 0xC3, CHR 0xC4, CHR 0xC5, CHR 0xC6, CHR 0xC7,
          CHR 0xC8, CHR 0xC9, CHR 0xCA, CHR 0xCB, CHR 0xCC, CHR 0xCD, CHR 0xCE, CHR 0xCF,
          CHR 0xD0, CHR 0xD1, CHR 0xD2, CHR 0xD3, CHR 0xD4, CHR 0xD5, CHR 0xD6, CHR 0xD8,
          CHR 0xD9, CHR 0xDA, CHR 0xDB, CHR 0xDC, CHR 0xDD, CHR 0xDE])
         (''abcdefghijklmnopqrstuvwxyz'' @
         [CHR 0xE0, CHR 0xE1, CHR 0xE2, CHR 0xE3, CHR 0xE4, CHR 0xE5, CHR 0xE6, CHR 0xE7,
          CHR 0xE8, CHR 0xE9, CHR 0xEA, CHR 0xEB, CHR 0xEC, CHR 0xED, CHR 0xEE, CHR 0xEF,
          CHR 0xF0, CHR 0xF1, CHR 0xF2, CHR 0xF3, CHR 0xF4, CHR 0xF5, CHR 0xF6, CHR 0xF8,
          CHR 0xF9, CHR 0xFA, CHR 0xFB, CHR 0xFC, CHR 0xFD, CHR 0xFE])) c of
        None \<Rightarrow> c | Some d \<Rightarrow> d)"

definition toLowerCase :: "string \<Rightarrow> string" where
  "toLowerCase s = map lowerChar s"

section \<open>Type coercion (utils/deepint-sources.ts)\<close>

datatype FeatureType = Nominal | Text | Numeric | Logic | Date

record Feature =
  index :: nat
  ftype :: FeatureType
  name :: string

text \<open>
  \<open>turnInto(data, type)\<close>. The \<open>date\<close> case catches every exception and answers the epoch;
  the other cases let a throwing conversion escape.
\<close>

definition turnInto :: "js_builtins \<Rightarrow> jsval \<Rightarrow> FeatureType \<Rightarrow> jserror + jsval" where
  "turnInto env data type =
     (if data = JNull \<or> data = JUndefined then Inr JNull
      else case type of
        Nominal \<Rightarrow>
          (case toStringJS env data of Inl e \<Rightarrow> Inl e | Inr s \<Rightarrow> Inr (JStr (take 255 s)))
      | Date \<Rightarrow>
          (case newDate env data of
             Inl e \<Rightarrow> Inr (JDate (Fin 0))
           | Inr t \<Rightarrow> if isFinite t then Inr (JDate t) else Inr (JDate (Fin 0)))
      | Numeric \<Rightarrow>
          (case toNumberJS env data of
             Inl e \<Rightarrow> Inl e
           | Inr n \<Rightarrow> if n = NaN then Inr JNull else Inr (JNum n))
      | Logic \<Rightarrow>
          (if data = JStr ''true'' \<or> data = JStr ''1'' then Inr (JBool True)
           else if data = JStr ''false'' \<or> data = JStr ''0'' then Inr (JBool False)
           else Inr (JBool (truthy data)))
      | Text \<Rightarrow>
          (case toStringJS env data of Inl e \<Rightarrow> Inl e | Inr s \<Rightarrow> Inr (JStr s)))"

text \<open>Built-ins used to run the definitions on concrete inputs.\<close>

definition sampleBuiltins :: js_builtins where
  "sampleBuiltins =
     \<lparr> numberToString = (\<lambda>n. if n = Fin 5 then ''5'' else ''0''),
       stringToNumber = (\<lambda>s. if s = ''5'' then Fin 5 else NaN),
       dateParse = (\<lambda>s. NaN),
       dateToString = (\<lambda>t. ''Thu Jan 01 1970''),
       objectToPrimitive =
         (\<lambda>v. case v of
                 JObj kvs \<Rightarrow> (case map_of kvs ''toString'' of
                               None \<Rightarrow> Inr ''[object Object]'' | Some f \<Rightarrow> Inl TypeError)
               | _ \<Rightarrow> Inr []) \<rparr>"

section \<open>Filter trees (utils/deepint-sources.ts)\<close>

definition QUERY_TREE_MAX_DEPH :: nat where
  "QUERY_TREE_MAX_DEPH = 4"

definition QUERY_TREE_MAX_CHILDREN :: nat where
  "QUERY_TREE_MAX_CHILDREN = 16"

text \<open>\<open>interface QueryTree\<close>; \<open>right\<close> is a string or \<open>null\<close>.\<close>

datatype QueryTree = QueryTree
  (qtype: string) (operation: string) (left: jsnum) (right: "string option")
  (children: "QueryTree list")

text \<open>\<open>typeof v === "object"\<close>, which holds of \<open>null\<close> too.\<close>

fun isObject :: "jsval \<Rightarrow> bool" where
  "isObject JNull = True"
| "isObject (JDate t) = True"
| "isObject (JArr xs) = True"
| "isObject (JObj kvs) = True"
| "isObject v = False"

text \<open>
  \<open>v.k\<close> for the keys read by the sanitizer: reading a property of \<open>null\<close> or
  \<open>undefined\<close> throws, a missing property is \<open>undefined\<close>.
\<close>

fun getProp :: "jsval \<Rightarrow> string \<Rightarrow> jserror + jsval" where
  "getProp JNull k = Inl TypeError"
| "getProp JUndefined k = Inl TypeError"
| "getProp (JObj kvs) k = Inr (case map_of kvs k of None \<Rightarrow> JUndefined | Some v \<Rightarrow> v)"
| "getProp v k = Inr JUndefined"

fun mathFloor :: "jsnum \<Rightarrow> jsnum" where
  "mathFloor (Fin r) = Fin (of_int \<lfloor>r\<rfloor>)"
| "mathFloor n = n"

text \<open>The four scalar fields of \<open>sanitizeQueryTree\<close>, in the order the source computes them.\<close>

definition sanitizeType :: "js_builtins \<Rightarrow> jsval \<Rightarrow> jserror + string" where
  "sanitizeType env tree =
     (case getProp tree ''type'' of
        Inl e \<Rightarrow> Inl e
      | Inr v \<Rightarrow>
          (case toStringJS env v of
             Inl e \<Rightarrow> Inl e
           | Inr s \<Rightarrow>
               Inr (let ty = toLowerCase s in
                    if ty \<in> set [''single'', ''one'', ''anyof'', ''allof'', ''not''] then ty
                    else ''anyof'')))"

definition sanitizeOperation :: "js_builtins \<Rightarrow> jsval \<Rightarrow> jserror + string" where
  "sanitizeOperation env tree =
     (case getProp tree ''operation'' of
        Inl e \<Rightarrow> Inl e
      | Inr v \<Rightarrow>
          (case toStringJS env v of
             Inl e \<Rightarrow> Inl e
           | Inr s \<Rightarrow>
               Inr (let op = toLowerCase s in
                    if op \<in> set [''null'', ''eq'', ''lt'', ''le'', ''lte'', ''gt'', ''ge'', ''gte'',
                                   ''cn'', ''cni'', ''sw'', ''swi'', ''ew'', ''ewi'']
                    then op else [])))"

definition sanitizeLeft :: "jsval \<Rightarrow> jserror + jsnum" where
  "sanitizeLeft tree =
     (case getProp tree ''left'' of
        Inl e \<Rightarrow> Inl e
      | Inr v \<Rightarrow> Inr (case v of JNum n \<Rightarrow> mathFloor n | _ \<Rightarrow> Fin (- 1)))"

definition sanitizeRight :: "js_builtins \<Rightarrow> jsval \<Rightarrow> jserror + string option" where
  "sanitizeRight env tree =
     (case getProp tree ''right'' of
        Inl e \<Rightarrow> Inl e
      | Inr v \<Rightarrow>
          (if v = JNull then Inr None
           else (case toStringJS env v of
                   Inl e \<Rightarrow> Inl e
                 | Inr r \<Rightarrow> Inr (Some (if length r > 1024 then take 1024 r else r)))))"

text \<open>\<open>typeof tree.children === "object" && tree.children instanceof Array\<close>.\<close>

definition childrenArray :: "jsval \<Rightarrow> jsval list option" where
  "childrenArray tree =
     (case getProp tree ''children'' of Inr (JArr cs) \<Rightarrow> Some cs | _ \<Rightarrow> None)"

text \<open>
  \<open>sanitizeQueryTree(tree, depth)\<close>, with its loop over the children as
  \<open>sanitizeChildren\<close> (the remaining children, the loop index \<open>i\<close>, the depth of the
  children). An exception in a child leaves the whole call.
\<close>

function sanitizeQueryTree :: "js_builtins \<Rightarrow> jsval \<Rightarrow> nat \<Rightarrow> jserror + QueryTree"
  and sanitizeChildren :: "js_builtins \<Rightarrow> jsval list \<Rightarrow> nat \<Rightarrow> nat \<Rightarrow> jserror + QueryTree list"
where
  "sanitizeQueryTree env tree depth =
     (if isObject tree then
        (case sanitizeType env tree of
           Inl e \<Rightarrow> Inl e
         | Inr ty \<Rightarrow>
        (case sanitizeOperation env tree of
           Inl e \<Rightarrow> Inl e
         | Inr op \<Rightarrow>
        (case sanitizeLeft tree of
           Inl e \<Rightarrow> Inl e
         | Inr l \<Rightarrow>
        (case sanitizeRight env tree of
           Inl e \<Rightarrow> Inl e
         | Inr r \<Rightarrow>
             (if depth < QUERY_TREE_MAX_DEPH \<and> ty \<in> set [''anyof'', ''allof'', ''not'']
              then (case childrenArray tree of
                      None \<Rightarrow> Inr (QueryTree ty op l r [])
                    | Some cs \<Rightarrow>
                        (case sanitizeChildren env cs 0 (depth + 1) of
                           Inl e \<Rightarrow> Inl e
                         | Inr ts \<Rightarrow> Inr (QueryTree ty op l r ts)))
              else Inr (QueryTree ty op l r []))))))
      else Inr (QueryTree ''anyof'' [] (Fin (- 1)) (Some []) []))"
| "sanitizeChildren env [] i depth = Inr []"
| "sanitizeChildren env (c # cs) i depth =
     (if i < QUERY_TREE_MAX_CHILDREN then
        (case sanitizeQueryTree env c depth of
           Inl e \<Rightarrow> Inl e
         | Inr t \<Rightarrow>
             (case sanitizeChildren env cs (i + 1) depth of
                Inl e \<Rightarrow> Inl e
              | Inr ts \<Rightarrow> Inr (t # ts)))
      else Inr [])"
  by pat_completeness auto
termination
  by (relation "measures [
        (\<lambda>x. case x of Inl (env, tree, depth) \<Rightarrow> 5 - depth
                      | Inr (env, cs, i, depth) \<Rightarrow> 5 - depth),
        (\<lambda>x. case x of Inl (env, tree, depth) \<Rightarrow> 0
                      | Inr (env, cs, i, depth) \<Rightarrow> Suc (length cs))]")
     (auto simp: QUERY_TREE_MAX_DEPH_def)

text \<open>\<open>DataSource.sanitizeFilter\<close>: a falsy filter is no filter.\<close>

definition sanitizeFilter :: "js_builtins \<Rightarrow> jsval \<Rightarrow> jserror + QueryTree option" where
  "sanitizeFilter env json =
     (if \<not> truthy json then Inr None
      else (case sanitizeQueryTree env json 0 of Inl e \<Rightarrow> Inl e | Inr t \<Rightarrow> Inr (Some t)))"

text \<open>The depth of a tree (a node without children has depth 0) and its fan-out bound.\<close>

fun treeDepth :: "QueryTree \<Rightarrow> nat" where
  "treeDepth (QueryTree ty op l r cs) = (if cs = [] then 0 else Suc (Max (set (map treeDepth cs))))"

fun fanOutBounded :: "QueryTree \<Rightarrow> bool" where
  "fanOutBounded (QueryTree ty op l r cs) =
     (length cs \<le> QUERY_TREE_MAX_CHILDREN \<and> list_all fanOutBounded cs)"

section \<open>Compiling a filter tree to SQL (utils/deepint-sources.ts)\<close>

record SQLCondition =
  sql :: string
  params :: "jsval list"

definition emptyCondition :: SQLCondition where
  "emptyCondition = \<lparr> sql = [], params = [] \<rparr>"

text \<open>\<open>features[n]\<close>: an element only at an integral index within the array.\<close>

fun featureAt :: "Feature list \<Rightarrow> jsnum \<Rightarrow> Feature option" where
  "featureAt fs (Fin r) =
     (if of_int \<lfloor>r\<rfloor> = r \<and> 0 \<le> r \<and> nat \<lfloor>r\<rfloor> < length fs then Some (fs ! nat \<lfloor>r\<rfloor>) else None)"
| "featureAt fs n = None"

text \<open>\<open>text.replace(/c/g, by)\<close> for a single character \<open>c\<close>.\<close>

definition replaceAll :: "char \<Rightarrow> string \<Rightarrow> string \<Rightarrow> string" where
  "replaceAll c by text = concat (map (\<lambda>x. if x = c then by else [x]) text)"

definition replaceWildcards :: "string \<Rightarrow> string" where
  "replaceWildcards text =
     replaceAll (CHR ''_'') [backslash, CHR ''_''] (replaceAll (CHR ''%'') [backslash, CHR ''%''] text)"

text \<open>\<open>'"' + name + '"'\<close>.\<close>

definition quoted :: "string \<Rightarrow> string" where
  "quoted n = dquote @ n @ dquote"

text \<open>The parameter of a \<open>LIKE\<close> clause: \<open>[ pre + replaceWildcards(cmp + "") + post ]\<close>.\<close>

definition likePattern :: "js_builtins \<Rightarrow> string \<Rightarrow> jsval \<Rightarrow> string \<Rightarrow> jserror + jsval list" where
  "likePattern env pre cmp post =
     (case toStringJS env cmp of
        Inl e \<Rightarrow> Inl e
      | Inr s \<Rightarrow> Inr [JStr (pre @ replaceWildcards s @ post)])"

text \<open>
  The \<open>default\<close> branch of the switch on \<open>query.type\<close> in \<open>toSQLCondition\<close>: a
  comparison of one field with the literal.
\<close>

definition leafCondition :: "js_builtins \<Rightarrow> Feature list \<Rightarrow> QueryTree \<Rightarrow> jserror + SQLCondition" where
  "leafCondition env features query =
     (if operation query \<noteq> ''null'' \<and> right query = None then Inr emptyCondition
      else (case featureAt features (left query) of
        None \<Rightarrow> Inr emptyCondition
      | Some feature \<Rightarrow>
        (case turnInto env (case right query of None \<Rightarrow> JNull | Some s \<Rightarrow> JStr s) (ftype feature) of
           Inl e \<Rightarrow> Inl e
         | Inr cmp \<Rightarrow>
          (let op = operation query; col = quoted (name feature);
               lowcol = ''LOWER('' @ quoted (name feature) @ '')'';
               like = (\<lambda>lhs pre post.
                  (case likePattern env pre cmp post of
                     Inl e \<Rightarrow> Inl e
                   | Inr ps \<Rightarrow> Inr \<lparr> sql = lhs, params = ps \<rparr>))
           in
           if op = ''null'' then Inr \<lparr> sql = col @ '' IS NULL'', params = [] \<rparr>
           else if op = ''eq'' then Inr \<lparr> sql = col @ '' = ?'', params = [cmp] \<rparr>
           else if op = ''lt'' then Inr \<lparr> sql = col @ '' < ?'', params = [cmp] \<rparr>
           else if op = ''le'' \<or> op = ''lte'' then Inr \<lparr> sql = col @ '' <= ?'', params = [cmp] \<rparr>
           else if op = ''gt'' then Inr \<lparr> sql = col @ '' > ?'', params = [cmp] \<rparr>
           else if op = ''ge'' \<or> op = ''gte'' then Inr \<lparr> sql = col @ '' >= ?'', params = [cmp] \<rparr>
           else if op = ''cn'' then like (col @ '' LIKE ?'') ''%'' ''%''
           else if op = ''cni'' then like (lowcol @ '' LIKE LOWER(?)'') ''%'' ''%''
           else if op = ''sw'' then like (col @ '' LIKE ?'') [] ''%''
           else if op = ''swi'' then like (lowcol @ '' LIKE LOWER(?)'') [] ''%''
           else if op = ''ew'' then like (col @ '' LIKE ?'') ''%'' []
           else if op = ''ewi'' then like (lowcol @ '' LIKE LOWER(?)'') ''%'' []
           else Inr emptyCondition))))"

text \<open>
  \<open>toSQLCondition(features, query)\<close>; \<open>None\<close> is a falsy \<open>query\<close>. The three loops over
  \<open>query.children\<close> differ in the separator only and are \<open>joinChildren\<close>, whose last
  argument holds the loop variables \<open>sql\<close>, \<open>fistQuery\<close> and \<open>params\<close>.
\<close>

fun toSQLCondition :: "js_builtins \<Rightarrow> Feature list \<Rightarrow> QueryTree option \<Rightarrow> jserror + SQLCondition"
  and joinChildren :: "js_builtins \<Rightarrow> Feature list \<Rightarrow> string \<Rightarrow> QueryTree list \<Rightarrow>
        string \<times> bool \<times> jsval list \<Rightarrow> jserror + string \<times> jsval list"
where
  "toSQLCondition env features None = Inr emptyCondition"
| "toSQLCondition env features (Some (QueryTree ty op l r cs)) =
     (if ty = ''anyof'' then
        (case joinChildren env features '' OR ('' cs ([], True, []) of
           Inl e \<Rightarrow> Inl e
         | Inr (s, ps) \<Rightarrow> Inr \<lparr> sql = s, params = ps \<rparr>)
      else if ty = ''allof'' then
        (case joinChildren env features '' AND ('' cs ([], True, []) of
           Inl e \<Rightarrow> Inl e
         | Inr (s, ps) \<Rightarrow> Inr \<lparr> sql = s, params = ps \<rparr>)
      else if ty = ''not'' then
        (case joinChildren env features '' OR ('' cs ([], True, []) of
           Inl e \<Rightarrow> Inl e
         | Inr (s, ps) \<Rightarrow>
             Inr \<lparr> sql = (if s \<noteq> [] then ''NOT( '' @ s @ '' )'' else []), params = ps \<rparr>)
      else leafCondition env features (QueryTree ty op l r cs))"
| "joinChildren env features sep [] (s, fistQuery, ps) = Inr (s, ps)"
| "joinChildren env features sep (child # rest) (s, fistQuery, ps) =
     (case toSQLCondition env features (Some child) of
        Inl e \<Rightarrow> Inl e
      | Inr subQ \<Rightarrow>
          (if sql subQ \<noteq> [] then
             joinChildren env features sep rest
               (if fistQuery then (s @ ''('' @ sql subQ @ '')'', False, ps @ params subQ)
                else (s @ sep @ sql subQ @ '')'', False, ps @ params subQ))
           else joinChildren env features sep rest (s, fistQuery, ps)))"

text \<open>The two fields of the specification's end-to-end scenario.\<close>

definition fieldA :: Feature where
  "fieldA = \<lparr> index = 0, ftype = Numeric, name = ''a'' \<rparr>"

definition fieldB :: Feature where
  "fieldB = \<lparr> index = 1, ftype = Nominal, name = ''b'' \<rparr>"

subsection \<open>Placeholders and the parameters they bind\<close>

text \<open>The number of \<open>?\<close> placeholders of a fragment.\<close>

definition countPlaceholders :: "string \<Rightarrow> nat" where
  "countPlaceholders s = length (filter (\<lambda>c. c = CHR ''?'') s)"

text \<open>
  Binding: the fragment read from left to right, the \<open>k\<close>-th placeholder replaced by the
  \<open>k\<close>-th parameter (a placeholder without a parameter is left as it is).
\<close>

fun bindParams :: "string \<Rightarrow> 'p list \<Rightarrow> (char + 'p) list" where
  "bindParams [] ps = []"
| "bindParams (c # s) ps =
     (if c = CHR ''?'' then
        (case ps of [] \<Rightarrow> Inl c # bindParams s [] | p # ps' \<Rightarrow> Inr p # bindParams s ps')
      else Inl c # bindParams s ps)"

text \<open>\<open>parts.join(sep)\<close>.\<close>

fun joinWith :: "'a list \<Rightarrow> 'a list list \<Rightarrow> 'a list" where
  "joinWith sep [] = []"
| "joinWith sep [x] = x"
| "joinWith sep (x # y # ys) = x @ sep @ joinWith sep (y # ys)"

text \<open>
  The condition a tree denotes, after the specification: a leaf is its clause with its own
  value in the place of its placeholder; \<open>anyOf\<close> joins the non-empty conditions of the
  children with \<open>OR\<close>, \<open>allOf\<close> with \<open>AND\<close>, \<open>not\<close> joins them with \<open>OR\<close> and negates the
  group. It is the reference \<open>toSQLCondition\<close> is compared with.
\<close>

fun inlineCondition :: "js_builtins \<Rightarrow> Feature list \<Rightarrow> QueryTree \<Rightarrow> (char + jsval) list" where
  "inlineCondition env features (QueryTree ty op l r cs) =
     (if ty \<in> set [''anyof'', ''allof'', ''not''] then
        (let parts = filter (\<lambda>p. p \<noteq> []) (map (inlineCondition env features) cs);
             joined = joinWith (map Inl (if ty = ''allof'' then '' AND '' else '' OR ''))
                        (map (\<lambda>p. Inl (CHR ''('') # p @ [Inl (CHR '')'')]) parts)
         in if ty = ''not'' \<and> joined \<noteq> [] then map Inl ''NOT( '' @ joined @ map Inl '' )''
            else joined)
      else (case leafCondition env features (QueryTree ty op l r cs) of
              Inl e \<Rightarrow> []
            | Inr c \<Rightarrow> bindParams (sql c) (params c)))"

text \<open>
  What the loop of \<open>joinChildren\<close> appends for the conditions it keeps: the first one is
  opened by \<open>opn\<close>, the later ones by \<open>sep\<close>, each is closed by \<open>cls\<close>.
\<close>

fun joinedTail :: "bool \<Rightarrow> 'a list \<Rightarrow> 'a list \<Rightarrow> 'a list \<Rightarrow> 'a list list \<Rightarrow> 'a list" where
  "joinedTail first opn sep cls [] = []"
| "joinedTail first opn sep cls (x # xs) =
     (if first then opn else sep) @ x @ cls @ joinedTail False opn sep cls xs"

text \<open>A condition with as many placeholders as parameters.\<close>

definition aligned :: "SQLCondition \<Rightarrow> bool" where
  "aligned c \<longleftrightarrow> countPlaceholders (sql c) = length (params c)"

text \<open>Values that are not arrays or objects.\<close>

fun isPrimitive :: "jsval \<Rightarrow> bool" where
  "isPrimitive (JArr xs) = False"
| "isPrimitive (JObj kvs) = False"
| "isPrimitive v = True"

section \<open>Ingestion queue (source.ts)\<close>

definition DEEPINT_UPDATE_INSTANCES_LIMIT :: nat where
  "DEEPINT_UPDATE_INSTANCES_LIMIT = 100"

text \<open>
  The inner loop of \<open>runUpdateServiceTable\<close>:
  \<open>while (instancesToPush.length < LIMIT && updateQueue.length > 0)
     instancesToPush.push(updateQueue.shift())\<close>.
  The arguments are \<open>instancesToPush\<close> and \<open>updateQueue\<close>; both are returned.
\<close>

fun drainQueue :: "'a list \<Rightarrow> 'a list \<Rightarrow> 'a list \<times> 'a list" where
  "drainQueue instancesToPush [] = (instancesToPush, [])"
| "drainQueue instancesToPush (x # updateQueue) =
     (if length instancesToPush < DEEPINT_UPDATE_INSTANCES_LIMIT
      then drainQueue (instancesToPush @ [x]) updateQueue
      else (instancesToPush, x # updateQueue))"

text \<open>\<open>interface DataSourceTable\<close> (the wake-up semaphore is left out).\<close>

record DataSourceTable =
  table :: string
  publicKey :: string
  secretKey :: string
  tfields :: "Feature list"
  updateQueue :: "jsval list list"
  requiredUpdate :: bool

text \<open>
  How a promise ends: resolved with a value, rejected with an error, or never settled.
\<close>

datatype 'a promise = Resolved 'a | Rejected jserror | Pending

subsection \<open>Writing instances\<close>

text \<open>
  \<open>"" + o\<close> for an object \<open>o\<close> built by an object literal, as the tables of
  \<open>DataSource\<close> are.
\<close>

definition objectToString :: string where
  "objectToString = ''[object Object]''"

text \<open>The decimal text of a loop counter, \<open>"" + i\<close>.\<close>

fun digit :: "nat \<Rightarrow> char" where
  "digit n = (''0123456789'' ! n)"

function decimal :: "nat \<Rightarrow> string" where
  "decimal n = (if n < 10 then [digit n] else decimal (n div 10) @ [digit (n mod 10)])"
  by pat_completeness auto
termination
  by (relation "measure id") auto

declare decimal.simps [simp del]

text \<open>\<open>s.replace(c, by)\<close> with a string pattern: the first occurrence only.\<close>

fun replaceFirst :: "char \<Rightarrow> string \<Rightarrow> string \<Rightarrow> string" where
  "replaceFirst c by [] = []"
| "replaceFirst c by (x # s) = (if x = c then by @ s else x # replaceFirst c by s)"

text \<open>
  \<open>toPostgresTemplate\<close> (utils/text.ts):
  \<open>while (queryTemplate.indexOf("?") >= 0) { queryTemplate = queryTemplate.replace("?", "$" + i); i++; }\<close>
\<close>

function toPostgresTemplateLoop :: "string \<Rightarrow> nat \<Rightarrow> string" where
  "toPostgresTemplateLoop queryTemplate i =
     (if CHR ''?'' \<in> set queryTemplate
      then toPostgresTemplateLoop (replaceFirst (CHR ''?'') (''$'' @ decimal i) queryTemplate) (i + 1)
      else queryTemplate)"
  by pat_completeness auto

definition toPostgresTemplate :: "string \<Rightarrow> string" where
  "toPostgresTemplate queryTemplate = toPostgresTemplateLoop queryTemplate 1"

text \<open>\<open>instance[i]\<close>: \<open>undefined\<close> outside the array.\<close>

definition elementAt :: "jsval list \<Rightarrow> nat \<Rightarrow> jsval" where
  "elementAt xs i = (if i < length xs then xs ! i else JUndefined)"

text \<open>
  The statement and the values \<open>pushInstance\<close> hands to the pool. The source writes
  \<open>"INSERT INTO \"" + table + "\"("\<close>, where \<open>table\<close> is the table object itself.
\<close>

definition pushInstanceSentence :: "DataSourceTable \<Rightarrow> string" where
  "pushInstanceSentence tbl =
     ''INSERT INTO '' @ dquote @ objectToString @ dquote @ ''('' @
     joinWith '','' (map (\<lambda>field. quoted (name field)) (tfields tbl)) @
     '') VALUES ('' @
     joinWith '','' (map (\<lambda>field. ''?'') (tfields tbl)) @
     '')''"

definition pushInstanceValues :: "DataSourceTable \<Rightarrow> jsval list \<Rightarrow> jsval list" where
  "pushInstanceValues tbl inst = map (\<lambda>field. elementAt inst (index field)) (tfields tbl)"

text \<open>
  \<open>pushInstance\<close>. The database is a state \<open>'db\<close>; \<open>poolQuery\<close> runs a statement on it and
  answers an error or the new state. The state of the program is the database and the table.
\<close>

definition pushInstance ::
  "('db \<Rightarrow> string \<Rightarrow> jsval list \<Rightarrow> jserror + 'db) \<Rightarrow> jsval list \<Rightarrow>
   'db \<times> DataSourceTable \<Rightarrow> unit promise \<times> 'db \<times> DataSourceTable" where
  "pushInstance poolQuery inst st =
     (case st of (db, tbl) \<Rightarrow>
        (case poolQuery db (toPostgresTemplate (pushInstanceSentence tbl))
                (pushInstanceValues tbl inst) of
           Inl error \<Rightarrow> (Rejected error, db, tbl)
         | Inr db' \<Rightarrow> (Resolved (), db', tbl\<lparr>updateQueue := updateQueue tbl @ [inst]\<rparr>)))"

text \<open>\<open>pushInstances\<close>: \<open>for (const instance of instances) await this.pushInstance(table, instance)\<close>.\<close>

fun pushInstances ::
  "('db \<Rightarrow> string \<Rightarrow> jsval list \<Rightarrow> jserror + 'db) \<Rightarrow> jsval list list \<Rightarrow>
   'db \<times> DataSourceTable \<Rightarrow> unit promise \<times> 'db \<times> DataSourceTable" where
  "pushInstances poolQuery [] st = (Resolved (), st)"
| "pushInstances poolQuery (inst # instances) st =
     (case pushInstance poolQuery inst st of
        (Resolved u, st') \<Rightarrow> pushInstances poolQuery instances st'
      | (p, st') \<Rightarrow> (p, st'))"

text \<open>A pool that records the statements it is given and accepts them all.\<close>

definition recordingPool ::
  "(string \<times> jsval list) list \<Rightarrow> string \<Rightarrow> jsval list \<Rightarrow> jserror + (string \<times> jsval list) list" where
  "recordingPool db statement vals = Inr (db @ [(statement, vals)])"

definition irisTable :: DataSourceTable where
  "irisTable =
     \<lparr> table = ''iris'', publicKey = ''pk'', secretKey = ''sk'',
       tfields = [\<lparr> index = 0, ftype = Nominal, name = ''species'' \<rparr>],
       updateQueue = [], requiredUpdate = False \<rparr>"

subsection \<open>Forwarding\<close>

text \<open>What the worker does towards the platform: a forward call with a batch, a timer (ms).\<close>

datatype forwardEvent = Send "jsval list list" | Wait nat

text \<open>
  The retry loop of \<open>runUpdateServiceTable\<close>:
  \<open>while (!done) { try { await send(instancesToPush); done = true } catch {} if (!done) await timer(5000) }\<close>.
  \<open>accepted n\<close> tells whether the \<open>n\<close>-th forward call of the worker succeeds, and
  \<open>arrivals n\<close> are the instances that \<open>pushInstance\<close> appends to the queue while the worker
  awaits that call and the timer after it. The loop need not end: \<open>None\<close> is a loop that
  runs for ever.
\<close>

partial_function (option) forwardLoop ::
  "(nat \<Rightarrow> bool) \<Rightarrow> (nat \<Rightarrow> jsval list list) \<Rightarrow> nat \<Rightarrow> jsval list list \<Rightarrow>
   DataSourceTable \<Rightarrow> forwardEvent list \<Rightarrow> (nat \<times> DataSourceTable \<times> forwardEvent list) option"
where
  "forwardLoop accepted arrivals n instancesToPush tbl trace =
     (let tbl' = tbl\<lparr>updateQueue := updateQueue tbl @ arrivals n\<rparr> in
      if accepted n then Some (n + 1, tbl', trace @ [Send instancesToPush])
      else forwardLoop accepted arrivals (n + 1) instancesToPush tbl'
             (trace @ [Send instancesToPush, Wait 5000]))"

text \<open>
  One cycle of \<open>runUpdateServiceTable\<close>, from the return of \<open>updateSem.acquire()\<close> to the end
  of the loop body.
\<close>

definition updateCycle ::
  "(nat \<Rightarrow> bool) \<Rightarrow> (nat \<Rightarrow> jsval list list) \<Rightarrow> nat \<Rightarrow> DataSourceTable \<Rightarrow>
   (nat \<times> DataSourceTable \<times> forwardEvent list) option" where
  "updateCycle accepted arrivals n tbl =
     (if \<not> requiredUpdate tbl \<and> updateQueue tbl = [] then Some (n, tbl, [])
      else (case drainQueue [] (updateQueue tbl) of
              (instancesToPush, rest) \<Rightarrow>
                forwardLoop accepted arrivals n instancesToPush
                  (tbl\<lparr>updateQueue := rest, requiredUpdate := False\<rparr>) []))"

text \<open>The table of the scenario with three instances queued.\<close>

definition threeQueued :: DataSourceTable where
  "threeQueued = irisTable\<lparr>updateQueue := [[JStr ''A''], [JStr ''B''], [JStr ''C'']]\<rparr>"

section \<open>Queries (source.ts)\<close>

text \<open>
  PostgreSQL's \<open>LIKE\<close> with its default escape character, the backslash: \<open>%\<close> matches any
  sequence, \<open>_\<close> any one character, an escaped character matches itself (a pattern that ends
  in the escape character matches nothing here; the database raises an error).
\<close>

fun likeMatch :: "string \<Rightarrow> string \<Rightarrow> bool" where
  "likeMatch [] s = (s = [])"
| "likeMatch (p # ps) s =
     (if p = CHR ''%'' then
        (likeMatch ps s \<or> (case s of [] \<Rightarrow> False | c # cs \<Rightarrow> likeMatch (p # ps) cs))
      else if p = CHR ''_'' then
        (case s of [] \<Rightarrow> False | c # cs \<Rightarrow> likeMatch ps cs)
      else if p = backslash then
        (case ps of
           [] \<Rightarrow> False
         | q # qs \<Rightarrow> (case s of [] \<Rightarrow> False | c # cs \<Rightarrow> c = q \<and> likeMatch qs cs))
      else (case s of [] \<Rightarrow> False | c # cs \<Rightarrow> c = p \<and> likeMatch ps cs))"

text \<open>A row of a result: column names and cells; \<open>row[name]\<close>.\<close>

type_synonym row = "(string \<times> jsval) list"

definition rowGet :: "row \<Rightarrow> string \<Rightarrow> jsval" where
  "rowGet r k = (case map_of r k of None \<Rightarrow> JUndefined | Some v \<Rightarrow> v)"

fun gtZero :: "jsnum \<Rightarrow> bool" where
  "gtZero (Fin r) = (r > 0)"
| "gtZero PosInf = True"
| "gtZero n = False"

fun geZero :: "jsnum \<Rightarrow> bool" where
  "geZero (Fin r) = (r \<ge> 0)"
| "geZero PosInf = True"
| "geZero n = False"

text \<open>
  The statement of \<open>query\<close>: the features of the result, the sentence and its values.
  \<open>skip\<close> and \<open>limit\<close> may be \<open>null\<close>.
\<close>

definition querySentence ::
  "js_builtins \<Rightarrow> DataSourceTable \<Rightarrow> QueryTree option \<Rightarrow> jsnum \<Rightarrow> string \<Rightarrow>
   jsnum option \<Rightarrow> jsnum option \<Rightarrow> jsnum list \<Rightarrow>
   jserror + Feature list \<times> string \<times> jsval list" where
  "querySentence env tbl flt order dir skip limit projection =
     (let projected = List.map_filter (featureAt (tfields tbl)) projection;
          features = (if projection \<noteq> [] then projected else tfields tbl);
          select = ''SELECT '' @
            (if projection \<noteq> [] then joinWith '', '' (map (\<lambda>f. quoted (name f)) projected)
             else ''*'') @
            '' FROM '' @ quoted (table tbl)
      in case toSQLCondition env (tfields tbl) flt of
           Inl e \<Rightarrow> Inl e
         | Inr cond1 \<Rightarrow>
             Inr (features,
                  select @
                  (if sql cond1 \<noteq> [] then '' WHERE '' @ sql cond1 else []) @
                  (case (if geZero order then featureAt (tfields tbl) order else None) of
                     None \<Rightarrow> []
                   | Some f \<Rightarrow> '' ORDER BY '' @ quoted (name f) @ '' '' @
                               (if dir = ''desc'' then ''DESC'' else ''ASC'')) @
                  (case limit of
                     None \<Rightarrow> []
                   | Some n \<Rightarrow> if gtZero n then '' LIMIT '' @ numberToString env n else []) @
                  (case skip of
                     None \<Rightarrow> []
                   | Some n \<Rightarrow> if gtZero n then '' OFFSET '' @ numberToString env n else []),
                  (if sql cond1 \<noteq> [] then params cond1 else [])))"

definition CURSOR_READ_AMOUNT :: nat where
  "CURSOR_READ_AMOUNT = 100"

text \<open>What \<open>query\<close> does, in order: calls to the pool, the cursor and the two callbacks.\<close>

datatype queryEvent =
    Connect
  | OpenCursor string "jsval list"
  | OnStart "Feature list"
  | CursorRead nat
  | OnRow "jsval list"
  | CloseCursor
  | Release

text \<open>
  \<open>for (const feature of features) instance.push(turnInto(row[feature.name], feature.type))\<close>
\<close>

fun toInstance :: "js_builtins \<Rightarrow> Feature list \<Rightarrow> row \<Rightarrow> jserror + jsval list" where
  "toInstance env [] r = Inr []"
| "toInstance env (feature # features) r =
     (case turnInto env (rowGet r (name feature)) (ftype feature) of
        Inl e \<Rightarrow> Inl e
      | Inr v \<Rightarrow>
          (case toInstance env features r of Inl e \<Rightarrow> Inl e | Inr vs \<Rightarrow> Inr (v # vs)))"

text \<open>
  The loop over the rows of one batch; the flag tells that a conversion threw, which leaves
  the loop.
\<close>

fun emitRows :: "js_builtins \<Rightarrow> Feature list \<Rightarrow> row list \<Rightarrow> queryEvent list \<times> bool" where
  "emitRows env features [] = ([], False)"
| "emitRows env features (r # rows) =
     (case toInstance env features r of
        Inl e \<Rightarrow> ([], True)
      | Inr inst \<Rightarrow>
          (case emitRows env features rows of (evs, thrown) \<Rightarrow> (OnRow inst # evs, thrown)))"

text \<open>
  The loop \<open>while (!resultsEnded)\<close>. The list holds the answers of the successive
  \<open>cursor.read\<close> calls, an error or rows; a cursor read past the list answers no rows. An
  error is turned into an empty batch: \<open>if (err) { return resolve([]); }\<close>.
\<close>

fun readLoop ::
  "js_builtins \<Rightarrow> Feature list \<Rightarrow> (jserror + row list) list \<Rightarrow> queryEvent list \<times> bool" where
  "readLoop env features [] = ([CursorRead CURSOR_READ_AMOUNT], False)"
| "readLoop env features (answer # reads) =
     (let partialResuls = (case answer of Inl err \<Rightarrow> [] | Inr rows \<Rightarrow> rows) in
      if partialResuls \<noteq> [] then
        (case emitRows env features partialResuls of
           (evs, True) \<Rightarrow> (CursorRead CURSOR_READ_AMOUNT # evs, True)
         | (evs, False) \<Rightarrow>
             (case readLoop env features reads of
                (evs', thrown) \<Rightarrow> (CursorRead CURSOR_READ_AMOUNT # evs @ evs', thrown)))
      else ([CursorRead CURSOR_READ_AMOUNT], False))"

text \<open>
  \<open>query\<close>. \<open>connect\<close> is the answer of \<open>pool.connect()\<close>, \<open>reads\<close> the answers of the
  cursor. An exception inside the executor of the promise (a conversion that throws) leaves
  the promise unsettled and the connection unreleased.
\<close>

definition query ::
  "js_builtins \<Rightarrow> DataSourceTable \<Rightarrow> QueryTree option \<Rightarrow> jsnum \<Rightarrow> string \<Rightarrow>
   jsnum option \<Rightarrow> jsnum option \<Rightarrow> jsnum list \<Rightarrow>
   jserror + unit \<Rightarrow> (jserror + row list) list \<Rightarrow> unit promise \<times> queryEvent list" where
  "query env tbl flt order dir skip limit projection connect reads =
     (case querySentence env tbl flt order dir skip limit projection of
        Inl e \<Rightarrow> (Rejected e, [])
      | Inr (features, sentence, vals) \<Rightarrow>
          (case connect of
             Inl ex \<Rightarrow> (Rejected ex, [Connect])
           | Inr client \<Rightarrow>
               (case readLoop env features reads of
                  (evs, True) \<Rightarrow>
                    (Pending, [Connect, OpenCursor sentence vals, OnStart features] @ evs)
                | (evs, False) \<Rightarrow>
                    (Resolved (),
                     [Connect, OpenCursor sentence vals, OnStart features] @ evs @
                     [CloseCursor, Release]))))"

text \<open>
  \<open>getNominalValues\<close>, up to the call of the pool: \<open>None\<close> when the guard answers the
  empty list at once, else the sentence and its values.
\<close>

definition nominalValuesSentence ::
  "js_builtins \<Rightarrow> DataSourceTable \<Rightarrow> QueryTree option \<Rightarrow> string \<Rightarrow> jsnum \<Rightarrow>
   jserror + (string \<times> string \<times> jsval list) option" where
  "nominalValuesSentence env tbl flt textQuery feature =
     (case featureAt (tfields tbl) feature of
        None \<Rightarrow> Inr None
      | Some f \<Rightarrow>
          if ftype f \<noteq> Nominal then Inr None
          else (case toSQLCondition env (tfields tbl) flt of
                  Inl e \<Rightarrow> Inl e
                | Inr cond1 \<Rightarrow>
                    (let fieldName = name f;
                         q = toLowerCase textQuery;
                         select = ''SELECT DISTINCT '' @ quoted fieldName @ '' FROM '' @
                                  quoted (table tbl);
                         tail = '' ORDER BY '' @ quoted fieldName @ '' '' @ '' LIMIT 128''
                     in Inr (Some (fieldName,
                          (if sql cond1 \<noteq> [] then
                             (if q \<noteq> [] then
                                (select @ '' WHERE ('' @ sql cond1 @ '') AND '' @
                                   quoted fieldName @ '' LIKE ?'' @ tail,
                                 params cond1 @ [JStr (replaceWildcards q @ ''%'')])
                              else (select @ '' WHERE '' @ sql cond1 @ tail, params cond1))
                           else if q \<noteq> [] then
                             (select @ '' WHERE '' @ quoted fieldName @ '' LIKE ?'' @ tail,
                              [JStr (replaceWildcards q @ ''%'')])
                           else (select @ tail, [])))))))"

text \<open>
  \<open>getNominalValues\<close>: \<open>poolQuery\<close> answers a statement with an error or with rows.
\<close>

definition getNominalValues ::
  "js_builtins \<Rightarrow> (string \<Rightarrow> jsval list \<Rightarrow> jserror + row list) \<Rightarrow> DataSourceTable \<Rightarrow>
   QueryTree option \<Rightarrow> string \<Rightarrow> jsnum \<Rightarrow> jsval list promise" where
  "getNominalValues env poolQuery tbl flt textQuery feature =
     (case nominalValuesSentence env tbl flt textQuery feature of
        Inl e \<Rightarrow> Rejected e
      | Inr None \<Rightarrow> Resolved []
      | Inr (Some (fieldName, sentence, vals)) \<Rightarrow>
          (case poolQuery sentence vals of
             Inl error \<Rightarrow> Rejected error
           | Inr rows \<Rightarrow> Resolved (map (\<lambda>r. rowGet r fieldName) rows)))"



section \<open>Properties\<close>

subsection \<open>Termination of the template loop\<close>

lemma count_Nil [simp]: "countPlaceholders [] = 0"
  by (simp add: countPlaceholders_def)

lemma count_Cons [simp]:
  "countPlaceholders (c # s) = (if c = CHR ''?'' then 1 else 0) + countPlaceholders s"
  by (simp add: countPlaceholders_def)

lemma count_append [simp]:
  "countPlaceholders (s @ t) = countPlaceholders s + countPlaceholders t"
  by (simp add: countPlaceholders_def)

lemma count_zero_iff: "countPlaceholders s = 0 \<longleftrightarrow> CHR ''?'' \<notin> set s"
  by (induction s) auto

lemma digit_no_placeholder: "n < 10 \<Longrightarrow> digit n \<noteq> CHR ''?''"
proof -
  assume "n < 10"
  then have "n \<in> {0, 1, 2, 3, 4, 5, 6, 7, 8, 9}" by auto
  then show ?thesis by auto
qed

lemma decimal_no_placeholder: "CHR ''?'' \<notin> set (decimal n)"
proof (induction n rule: decimal.induct)
  case (1 n)
  show ?case
  proof (cases "n < 10")
    case True
    then show ?thesis using digit_no_placeholder [of n] by (subst decimal.simps) simp
  next
    case False
    have "n mod 10 < 10" by simp
    from digit_no_placeholder [OF this] "1" [OF False] False
    show ?thesis by (subst decimal.simps) simp
  qed
qed

lemma count_replaceFirst:
  "CHR ''?'' \<in> set s \<Longrightarrow> CHR ''?'' \<notin> set by \<Longrightarrow>
   countPlaceholders (replaceFirst (CHR ''?'') by s) < countPlaceholders s"
  by (induction s) (auto simp: count_zero_iff)

termination toPostgresTemplateLoop
  by (relation "measure (\<lambda>(q, i). countPlaceholders q)")
     (auto intro!: count_replaceFirst simp: decimal_no_placeholder)

declare toPostgresTemplateLoop.simps [simp del]

subsection \<open>The batch of a cycle\<close>

lemma drainQueue_eq:
  "drainQueue acc q =
     (acc @ take (DEEPINT_UPDATE_INSTANCES_LIMIT - length acc) q,
      drop (DEEPINT_UPDATE_INSTANCES_LIMIT - length acc) q)"
proof (induction q arbitrary: acc)
  case Nil
  show ?case by simp
next
  case (Cons x q)
  show ?case
  proof (cases "length acc < DEEPINT_UPDATE_INSTANCES_LIMIT")
    case True
    then obtain k where k: "DEEPINT_UPDATE_INSTANCES_LIMIT - length acc = Suc k"
      by (cases "DEEPINT_UPDATE_INSTANCES_LIMIT - length acc") auto
    then have "DEEPINT_UPDATE_INSTANCES_LIMIT - length (acc @ [x]) = k"
      by simp
    with True k Cons.IH [of "acc @ [x]"] show ?thesis
      by simp
  next
    case False
    then show ?thesis by simp
  qed
qed

text \<open>
  C4. The batch assembled in a cycle is the first \<open>min 100 (length queue)\<close> instances of the
  update queue, in queue order, and the instances after them stay queued, in order: a cycle
  that has work hands exactly that batch to the forwarding loop and leaves the rest queued.
\<close>

theorem drainQueue_fifo_batch:
  "drainQueue [] q = (take 100 q, drop 100 q) \<and>
   length (fst (drainQueue [] q)) = min 100 (length q) \<and>
   updateCycle accepted arrivals n tbl =
     (if \<not> requiredUpdate tbl \<and> updateQueue tbl = [] then Some (n, tbl, [])
      else forwardLoop accepted arrivals n (take 100 (updateQueue tbl))
             (tbl\<lparr>updateQueue := drop 100 (updateQueue tbl), requiredUpdate := False\<rparr>) [])"
  by (simp add: updateCycle_def drainQueue_eq DEEPINT_UPDATE_INSTANCES_LIMIT_def min.commute)

theorem drainQueue_fifo_batch_witness:
  "drainQueue [] [1, 2, 3 :: nat] = ([1, 2, 3], [])"
  using drainQueue_fifo_batch [of "[1, 2, 3 :: nat]"] by simp

subsection \<open>Coercion\<close>

text \<open>
  C9. Coercion is idempotent: coercing the result of \<open>turnInto x T\<close> to \<open>T\<close> again gives
  the same value, for every raw value and each of the five field types (when the first
  coercion throws, so does the composition).
\<close>

theorem turnInto_idempotent:
  "(case turnInto env x T of Inl e \<Rightarrow> Inl e | Inr v \<Rightarrow> turnInto env v T) = turnInto env x T"
proof (cases T)
  case Nominal
  then show ?thesis by (cases x) (auto simp: turnInto_def split: sum.splits)
next
  case Text
  then show ?thesis by (cases x) (auto simp: turnInto_def split: sum.splits)
next
  case Numeric
  then show ?thesis by (cases x) (auto simp: turnInto_def split: sum.splits)
next
  case Logic
  then show ?thesis by (cases x) (auto simp: turnInto_def split: sum.splits)
next
  case Date
  then show ?thesis by (cases x) (auto simp: turnInto_def split: sum.splits)
qed

theorem turnInto_idempotent_witness:
  "turnInto sampleBuiltins (JStr ''5'') Numeric = Inr (JNum (Fin 5)) \<and>
   turnInto sampleBuiltins (JNum (Fin 5)) Numeric = Inr (JNum (Fin 5))"
  using turnInto_idempotent [where env = sampleBuiltins and x = "JStr ''5''" and T = Numeric]
  by (simp add: turnInto_def sampleBuiltins_def)

subsection \<open>The sanitizer\<close>

lemma treeDepth_le:
  "treeDepth (QueryTree ty op l r cs) \<le> Suc n \<longleftrightarrow> (\<forall>c \<in> set cs. treeDepth c \<le> n)"
  by (cases "cs = []") (auto simp: Max_le_iff)

lemma sanitize_bounds_aux:
  "sanitizeQueryTree env tree depth = Inr q \<longrightarrow> depth \<le> QUERY_TREE_MAX_DEPH \<longrightarrow>
      treeDepth q \<le> QUERY_TREE_MAX_DEPH - depth \<and> fanOutBounded q"
  and "sanitizeChildren env cs i d = Inr qs \<longrightarrow> d \<le> QUERY_TREE_MAX_DEPH \<longrightarrow>
      (\<forall>c \<in> set qs. treeDepth c \<le> QUERY_TREE_MAX_DEPH - d \<and> fanOutBounded c) \<and>
      length qs \<le> QUERY_TREE_MAX_CHILDREN - i"
proof (induction env tree depth and env cs i d arbitrary: q and qs
       rule: sanitizeQueryTree_sanitizeChildren.induct)
  case (1 env tree depth)
  show ?case
  proof (intro impI)
    assume eq: "sanitizeQueryTree env tree depth = Inr q" and dl: "depth \<le> QUERY_TREE_MAX_DEPH"
    show "treeDepth q \<le> QUERY_TREE_MAX_DEPH - depth \<and> fanOutBounded q"
    proof (cases "isObject tree")
      case False
      with eq show ?thesis by auto
    next
      case True
      with eq obtain ty op l r where
        st: "sanitizeType env tree = Inr ty" and so: "sanitizeOperation env tree = Inr op"
        and sl: "sanitizeLeft tree = Inr l" and sr: "sanitizeRight env tree = Inr r"
        by (auto split: sum.splits)
      show ?thesis
      proof (cases "depth < QUERY_TREE_MAX_DEPH \<and> ty \<in> set [''anyof'', ''allof'', ''not'']")
        case False
        with eq True st so sl sr have "q = QueryTree ty op l r []" by auto
        then show ?thesis by simp
      next
        case guard: True
        show ?thesis
        proof (cases "childrenArray tree")
          case None
          with eq True st so sl sr guard have "q = QueryTree ty op l r []" by auto
          then show ?thesis by simp
        next
          case (Some cs)
          with eq True st so sl sr guard obtain ts where
            ts: "sanitizeChildren env cs 0 (depth + 1) = Inr ts" and q: "q = QueryTree ty op l r ts"
            by (auto split: sum.splits)
          from guard have "depth + 1 \<le> QUERY_TREE_MAX_DEPH" by simp
          with "1.IH" [OF True st so sl sr guard Some, of ts] ts
          have b: "\<forall>c \<in> set ts. treeDepth c \<le> QUERY_TREE_MAX_DEPH - (depth + 1) \<and> fanOutBounded c"
            and len: "length ts \<le> QUERY_TREE_MAX_CHILDREN"
            by auto
          from guard have "depth < QUERY_TREE_MAX_DEPH" by simp
          then have "QUERY_TREE_MAX_DEPH - depth = Suc (QUERY_TREE_MAX_DEPH - (depth + 1))"
            by arith
          with b len q show ?thesis
            by (simp add: treeDepth_le list_all_iff del: treeDepth.simps)
        qed
      qed
    qed
  qed
next
  case (2 env i depth)
  show ?case by simp
next
  case (3 env c cs i depth)
  show ?case
  proof (intro impI)
    assume eq: "sanitizeChildren env (c # cs) i depth = Inr qs" and dl: "depth \<le> QUERY_TREE_MAX_DEPH"
    show "(\<forall>c \<in> set qs. treeDepth c \<le> QUERY_TREE_MAX_DEPH - depth \<and> fanOutBounded c) \<and>
      length qs \<le> QUERY_TREE_MAX_CHILDREN - i"
    proof (cases "i < QUERY_TREE_MAX_CHILDREN")
      case False
      with eq show ?thesis by simp
    next
      case True
      with eq obtain t ts where t: "sanitizeQueryTree env c depth = Inr t"
        and ts: "sanitizeChildren env cs (i + 1) depth = Inr ts" and qs: "qs = t # ts"
        by (auto split: sum.splits)
      from "3.IH"(1) [OF True, of t] t dl
      have bt: "treeDepth t \<le> QUERY_TREE_MAX_DEPH - depth \<and> fanOutBounded t" by simp
      from "3.IH"(2) [OF True t, of ts] ts dl
      have bts: "(\<forall>c \<in> set ts. treeDepth c \<le> QUERY_TREE_MAX_DEPH - depth \<and> fanOutBounded c) \<and>
        length ts \<le> QUERY_TREE_MAX_CHILDREN - (i + 1)" by simp
      from bt bts qs True show ?thesis by auto
    qed
  qed
qed

lemma sanitizeQueryTree_bounds:
  assumes "sanitizeQueryTree env tree 0 = Inr q"
  shows "treeDepth q \<le> 4 \<and> fanOutBounded q"
  using sanitize_bounds_aux(1) [of env tree 0 q] assms
  by (simp add: QUERY_TREE_MAX_DEPH_def)

text \<open>
  C2. The sanitizer is meant to answer a bounded tree for every input. On a filter with a
  \<open>null\<close> child it throws instead: \<open>typeof null\<close> is \<open>"object"\<close>, so the guard lets
  \<open>null\<close> through and reading \<open>tree.type\<close> raises a TypeError. (When the sanitizer does
  return, the bounds hold: \<open>sanitizeQueryTree_bounds\<close>.)
\<close>

theorem sanitizeFilter_null_child_throws:
  "sanitizeFilter env (JObj [(''type'', JStr ''anyof''), (''children'', JArr [JNull])])
     = Inl TypeError"
  by (simp add: sanitizeFilter_def sanitizeType_def sanitizeOperation_def sanitizeLeft_def
      sanitizeRight_def childrenArray_def toLowerCase_def lowerChar_def
      QUERY_TREE_MAX_DEPH_def QUERY_TREE_MAX_CHILDREN_def)

subsection \<open>Compiled conditions\<close>

lemma toStringJS_primitive: "isPrimitive v \<Longrightarrow> \<exists>s. toStringJS env v = Inr s"
  by (cases v) auto

lemma turnInto_primitive:
  "isPrimitive d \<Longrightarrow> \<exists>v. turnInto env d T = Inr v \<and> isPrimitive v"
  by (cases d; cases T) (auto simp: turnInto_def)

lemma featureAt_mem: "featureAt fs n = Some f \<Longrightarrow> f \<in> set fs"
  by (cases n) (auto split: if_splits)

lemma count_quoted: "CHR ''?'' \<notin> set n \<Longrightarrow> countPlaceholders (quoted n) = 0"
  by (simp add: quoted_def dquote_def count_zero_iff)

lemma leafCondition_total: "\<exists>c. leafCondition env fs q = Inr c"
proof (cases "operation q \<noteq> ''null'' \<and> right q = None")
  case True
  then show ?thesis by (simp add: leafCondition_def)
next
  case False
  show ?thesis
  proof (cases "featureAt fs (left q)")
    case None
    with False show ?thesis by (simp add: leafCondition_def)
  next
    case (Some f)
    have "isPrimitive (case right q of None \<Rightarrow> JNull | Some s \<Rightarrow> JStr s)"
      by (simp split: option.splits)
    from turnInto_primitive [OF this, of env "ftype f"] obtain cmp where
      cmp: "turnInto env (case right q of None \<Rightarrow> JNull | Some s \<Rightarrow> JStr s) (ftype f) = Inr cmp"
      and prim: "isPrimitive cmp" by blast
    from toStringJS_primitive [OF prim, of env] obtain s where s: "toStringJS env cmp = Inr s"
      by blast
    from False Some cmp s show ?thesis
      by (simp add: leafCondition_def likePattern_def Let_def)
  qed
qed

lemma leafCondition_count:
  assumes "leafCondition env fs q = Inr c" and "\<forall>f \<in> set fs. CHR ''?'' \<notin> set (name f)"
  shows "countPlaceholders (sql c) = length (params c)"
proof (cases "operation q \<noteq> ''null'' \<and> right q = None")
  case True
  with assms show ?thesis by (auto simp: leafCondition_def emptyCondition_def)
next
  case False
  show ?thesis
  proof (cases "featureAt fs (left q)")
    case None
    with False assms show ?thesis by (auto simp: leafCondition_def emptyCondition_def)
  next
    case (Some f)
    with assms(2) have "countPlaceholders (quoted (name f)) = 0"
      using featureAt_mem count_quoted by blast
    with False Some assms(1) show ?thesis
      by (auto simp: leafCondition_def likePattern_def Let_def emptyCondition_def
          split: sum.splits if_splits)
  qed
qed


lemma joinChildren_spec:
  assumes "\<forall>child \<in> set cs. toSQLCondition env fs (Some child) = Inr (g child)"
  shows "joinChildren env fs sep cs (s, first, ps) =
           Inr (s @ joinedTail first ''('' sep '')''
                      (map sql (filter (\<lambda>c. sql c \<noteq> []) (map g cs))),
                ps @ concat (map params (filter (\<lambda>c. sql c \<noteq> []) (map g cs))))"
  using assms
proof (induction cs arbitrary: s first ps)
  case Nil
  show ?case by simp
next
  case (Cons child rest)
  then have c: "toSQLCondition env fs (Some child) = Inr (g child)"
    and r: "\<forall>x \<in> set rest. toSQLCondition env fs (Some x) = Inr (g x)"
    by simp_all
  show ?case
    by (simp add: c Cons.IH [OF r])
qed

lemma bindParams_append:
  "countPlaceholders s = length ps \<Longrightarrow>
   bindParams (s @ t) (ps @ qs) = bindParams s ps @ bindParams t qs"
proof (induction s arbitrary: ps)
  case Nil
  then show ?case by simp
next
  case (Cons c s)
  show ?case
  proof (cases "c = CHR ''?''")
    case True
    with Cons.prems obtain p ps' where ps: "ps = p # ps'" and n: "countPlaceholders s = length ps'"
      by (cases ps) auto
    with True Cons.IH [OF n] show ?thesis by simp
  next
    case False
    with Cons.prems have "countPlaceholders s = length ps" by simp
    with False Cons.IH [of ps] show ?thesis by simp
  qed
qed

lemma bindParams_plain_append:
  "CHR ''?'' \<notin> set s \<Longrightarrow> bindParams (s @ t) ps = map Inl s @ bindParams t ps"
  by (induction s) auto

lemma bindParams_plain: "CHR ''?'' \<notin> set s \<Longrightarrow> bindParams s ps = map Inl s"
  using bindParams_plain_append [of s "[]" ps] by simp

lemma bindParams_Nil_iff: "bindParams s ps = [] \<longleftrightarrow> s = []"
  by (cases s) (auto split: list.splits)

lemma bindParams_wrap:
  assumes "countPlaceholders s = length ps" and "CHR ''?'' \<notin> set a" and "CHR ''?'' \<notin> set b"
  shows "bindParams (a @ s @ b @ t) (ps @ qs) =
         map Inl a @ bindParams s ps @ map Inl b @ bindParams t qs"
proof -
  have "bindParams (a @ s @ b @ t) (ps @ qs) = map Inl a @ bindParams (s @ b @ t) (ps @ qs)"
    using assms(2) by (rule bindParams_plain_append)
  also have "bindParams (s @ b @ t) (ps @ qs) = bindParams s ps @ bindParams (b @ t) qs"
    using assms(1) by (rule bindParams_append)
  also have "bindParams (b @ t) qs = map Inl b @ bindParams t qs"
    using assms(3) by (rule bindParams_plain_append)
  finally show ?thesis .
qed

lemma joinedTail_count:
  assumes "\<forall>c \<in> set cs. aligned c"
    and "CHR ''?'' \<notin> set opn" and "CHR ''?'' \<notin> set sep" and "CHR ''?'' \<notin> set cls"
  shows "countPlaceholders (joinedTail first opn sep cls (map sql cs)) =
         length (concat (map params cs))"
  using assms(1)
proof (induction cs arbitrary: first)
  case Nil
  show ?case by simp
next
  case (Cons c cs)
  from assms(2-4) have "countPlaceholders opn = 0" "countPlaceholders sep = 0"
    "countPlaceholders cls = 0" by (simp_all add: count_zero_iff)
  with Cons show ?case by (simp add: aligned_def)
qed

lemma bind_joinedTail:
  assumes "\<forall>c \<in> set cs. aligned c"
    and "CHR ''?'' \<notin> set opn" and "CHR ''?'' \<notin> set sep" and "CHR ''?'' \<notin> set cls"
  shows "bindParams (joinedTail first opn sep cls (map sql cs)) (concat (map params cs)) =
         joinedTail first (map Inl opn) (map Inl sep) (map Inl cls)
           (map (\<lambda>c. bindParams (sql c) (params c)) cs)"
  using assms(1)
proof (induction cs arbitrary: first)
  case Nil
  show ?case by simp
next
  case (Cons c cs)
  then have al: "countPlaceholders (sql c) = length (params c)"
    and rest: "\<forall>x \<in> set cs. aligned x" by (simp_all add: aligned_def)
  have pre: "CHR ''?'' \<notin> set (if first then opn else sep)"
    using assms(2,3) by simp
  show ?case
    using bindParams_wrap [OF al pre assms(4)] Cons.IH [OF rest, of False]
    by simp
qed

lemma joinWith_Cons:
  "joinWith sep (x # xs) = x @ concat (map (\<lambda>y. sep @ y) xs)"
  by (induction xs arbitrary: x) auto

lemma joinedTail_False:
  "joinedTail False opn (sep @ opn) cls xs = concat (map (\<lambda>x. sep @ opn @ x @ cls) xs)"
  by (induction xs) auto

lemma joinedTail_True:
  "joinedTail True opn (sep @ opn) cls xs = joinWith sep (map (\<lambda>x. opn @ x @ cls) xs)"
  by (cases xs) (simp_all add: joinWith_Cons joinedTail_False comp_def)

lemma joinedTail_Nil_iff:
  "opn \<noteq> [] \<Longrightarrow> sep \<noteq> [] \<Longrightarrow> joinedTail first opn sep cls xs = [] \<longleftrightarrow> xs = []"
  by (cases xs) auto


lemma composite_join:
  assumes ih: "\<forall>c \<in> set cs. toSQLCondition env fs (Some c) = Inr (g c) \<and> aligned (g c) \<and>
                 bindParams (sql (g c)) (params (g c)) = inlineCondition env fs c"
    and sep: "CHR ''?'' \<notin> set sep"
  shows "\<exists>s ps. joinChildren env fs (sep @ ''('') cs ([], True, []) = Inr (s, ps) \<and>
           countPlaceholders s = length ps \<and>
           bindParams s ps =
             joinWith (map Inl sep)
               (map (\<lambda>p. Inl (CHR ''('') # p @ [Inl (CHR '')'')])
                  (filter (\<lambda>p. p \<noteq> []) (map (inlineCondition env fs) cs)))"
proof -
  define kept where "kept = filter (\<lambda>c. sql c \<noteq> []) (map g cs)"
  define s where "s = joinedTail True ''('' (sep @ ''('') '')'' (map sql kept)"
  define ps where "ps = concat (map params kept)"
  have run: "joinChildren env fs (sep @ ''('') cs ([], True, []) = Inr (s, ps)"
    using joinChildren_spec [of cs env fs g "sep @ ''(''" "[]" True "[]"] ih
    by (simp add: s_def ps_def kept_def)
  have al: "\<forall>c \<in> set kept. aligned c"
    using ih by (auto simp: kept_def)
  have cnt: "countPlaceholders s = length ps"
    unfolding s_def ps_def using al sep by (intro joinedTail_count) simp_all
  have m: "map (inlineCondition env fs) cs = map (\<lambda>c. bindParams (sql (g c)) (params (g c))) cs"
    using ih by simp
  have parts: "filter (\<lambda>p. p \<noteq> []) (map (inlineCondition env fs) cs) =
      map (\<lambda>c. bindParams (sql c) (params c)) kept"
    unfolding m by (simp add: kept_def filter_map comp_def bindParams_Nil_iff)
  have "bindParams s ps =
      joinedTail True (map Inl ''('') (map Inl (sep @ ''('')) (map Inl '')'')
        (map (\<lambda>c. bindParams (sql c) (params c)) kept)"
    unfolding s_def ps_def using al sep by (intro bind_joinedTail) simp_all
  also have "\<dots> = joinWith (map Inl sep)
      (map (\<lambda>x. map Inl ''('' @ x @ map Inl '')'') (map (\<lambda>c. bindParams (sql c) (params c)) kept))"
    by (simp only: map_append joinedTail_True)
  finally have "bindParams s ps = joinWith (map Inl sep)
      (map (\<lambda>p. Inl (CHR ''('') # p @ [Inl (CHR '')'')])
         (filter (\<lambda>p. p \<noteq> []) (map (inlineCondition env fs) cs)))"
    by (simp add: parts)
  with run cnt show ?thesis by blast
qed

text \<open>
  C1. For every field list whose names contain no \<open>?\<close> and every filter tree (sanitized
  or not), \<open>toSQLCondition\<close> returns a condition with exactly as many placeholders as
  parameters, and binding the parameters to the placeholders from left to right gives the
  condition the tree denotes: each parameter meets the placeholder of its own leaf.
\<close>

theorem toSQLCondition_placeholders:
  assumes names: "\<forall>f \<in> set fs. CHR ''?'' \<notin> set (name f)"
  shows "\<exists>c. toSQLCondition env fs (Some q) = Inr c \<and>
           countPlaceholders (sql c) = length (params c) \<and>
           bindParams (sql c) (params c) = inlineCondition env fs q"
proof (induction q)
  case (QueryTree ty op l r cs)
  define g where "g c = projr (toSQLCondition env fs (Some c))" for c
  have ih: "\<forall>c \<in> set cs. toSQLCondition env fs (Some c) = Inr (g c) \<and> aligned (g c) \<and>
                 bindParams (sql (g c)) (params (g c)) = inlineCondition env fs c"
    using QueryTree.IH by (fastforce simp: g_def aligned_def)
  show ?case
  proof (cases "ty \<in> set [''anyof'', ''allof'', ''not'']")
    case False
    obtain c where c: "leafCondition env fs (QueryTree ty op l r cs) = Inr c"
      using leafCondition_total by blast
    from leafCondition_count [OF c names] c False show ?thesis
      by simp
  next
    case True
    show ?thesis
    proof (cases "ty = ''allof''")
      case allof: True
      have "CHR ''?'' \<notin> set '' AND ''" by simp
      from composite_join [OF ih this] obtain s ps where
        "joinChildren env fs ('' AND '' @ ''('') cs ([], True, []) = Inr (s, ps)"
        "countPlaceholders s = length ps"
        "bindParams s ps = joinWith (map Inl '' AND '')
               (map (\<lambda>p. Inl (CHR ''('') # p @ [Inl (CHR '')'')])
                  (filter (\<lambda>p. p \<noteq> []) (map (inlineCondition env fs) cs)))"
        by blast
      with allof show ?thesis by simp
    next
      case nall: False
      have "CHR ''?'' \<notin> set '' OR ''" by simp
      from composite_join [OF ih this] obtain s ps where
        run: "joinChildren env fs ('' OR '' @ ''('') cs ([], True, []) = Inr (s, ps)"
        and cnt: "countPlaceholders s = length ps"
        and bnd: "bindParams s ps = joinWith (map Inl '' OR '')
               (map (\<lambda>p. Inl (CHR ''('') # p @ [Inl (CHR '')'')])
                  (filter (\<lambda>p. p \<noteq> []) (map (inlineCondition env fs) cs)))"
        by blast
      show ?thesis
      proof (cases "ty = ''anyof''")
        case True
        with run cnt bnd show ?thesis by simp
      next
        case False
        with nall True have nt: "ty = ''not''" by simp
        have wrap: "bindParams (''NOT( '' @ s @ '' )'' @ []) (ps @ []) =
            map Inl ''NOT( '' @ bindParams s ps @ map Inl '' )'' @ bindParams [] []"
          using cnt by (rule bindParams_wrap) simp_all
        have emp: "bindParams s ps = [] \<longleftrightarrow> s = []" by (rule bindParams_Nil_iff)
        show ?thesis
        proof (cases "s = []")
          case True
          with nt run cnt bnd emp show ?thesis by simp
        next
          case False
          with emp have "bindParams s ps \<noteq> []" by simp
          with nt run cnt bnd wrap False show ?thesis by simp
        qed
      qed
    qed
  qed
qed

theorem toSQLCondition_placeholders_witness:
  "CHR ''?'' \<notin> set (name fieldA) \<and> CHR ''?'' \<notin> set (name fieldB) \<and>
   toSQLCondition sampleBuiltins [fieldA, fieldB]
     (Some (QueryTree ''anyof'' [] (Fin (- 1)) (Some [])
        [QueryTree ''single'' ''eq'' (Fin 0) (Some ''5'') [],
         QueryTree ''single'' ''cn'' (Fin 1) (Some ''x'') []]))
   = Inr \<lparr> sql = ''('' @ quoted ''a'' @ '' = ?) OR ('' @ quoted ''b'' @ '' LIKE ?)'',
           params = [JNum (Fin 5), JStr ''%x%''] \<rparr>"
  using toSQLCondition_placeholders [of "[fieldA, fieldB]" sampleBuiltins
      "QueryTree ''anyof'' [] (Fin (- 1)) (Some [])
        [QueryTree ''single'' ''eq'' (Fin 0) (Some ''5'') [],
         QueryTree ''single'' ''cn'' (Fin 1) (Some ''x'') []]"]
  by (simp add: fieldA_def fieldB_def leafCondition_def likePattern_def turnInto_def
      sampleBuiltins_def quoted_def dquote_def replaceWildcards_def replaceAll_def)

lemma joinChildren_skip:
  assumes "toSQLCondition env fs (Some q) = Inr emptyCondition"
  shows "joinChildren env fs sep (pre @ q # post) acc = joinChildren env fs sep (pre @ post) acc"
proof (induction pre arbitrary: acc)
  case Nil
  obtain s first ps where "acc = (s, first, ps)" by (cases acc) auto
  with assms show ?case by (simp add: emptyCondition_def)
next
  case (Cons child pre)
  obtain s first ps where "acc = (s, first, ps)" by (cases acc) auto
  with Cons.IH show ?case by (simp split: sum.splits)
qed

text \<open>
  C10. A leaf whose operation is not \<open>null\<close> and whose literal is \<open>null\<close> compiles to the
  empty condition, whatever the fields, and an enclosing node compiles as if that child were
  absent.
\<close>

theorem null_literal_compiles_empty:
  assumes "qtype q \<notin> set [''anyof'', ''allof'', ''not'']"
    and "operation q \<noteq> ''null''" and "right q = None"
  shows "toSQLCondition env fs (Some q) = Inr emptyCondition \<and>
         toSQLCondition env fs (Some (QueryTree ty op l r (pre @ q # post))) =
         toSQLCondition env fs (Some (QueryTree ty op l r (pre @ post)))"
proof -
  have e: "toSQLCondition env fs (Some q) = Inr emptyCondition"
    using assms by (cases q) (simp add: leafCondition_def)
  have "joinChildren env fs sep (pre @ q # post) acc = joinChildren env fs sep (pre @ post) acc"
    for sep acc
    using e by (rule joinChildren_skip)
  moreover have "leafCondition env fs (QueryTree ty op l r (pre @ q # post)) =
         leafCondition env fs (QueryTree ty op l r (pre @ post))"
    unfolding leafCondition_def QueryTree.sel by (rule refl)
  ultimately have "toSQLCondition env fs (Some (QueryTree ty op l r (pre @ q # post))) =
         toSQLCondition env fs (Some (QueryTree ty op l r (pre @ post)))"
    by simp
  with e show ?thesis by simp
qed

theorem null_literal_compiles_empty_witness:
  "qtype (QueryTree ''single'' ''eq'' (Fin 0) None []) \<notin> set [''anyof'', ''allof'', ''not''] \<and>
   toSQLCondition sampleBuiltins [fieldA] (Some (QueryTree ''single'' ''eq'' (Fin 0) None []))
     = Inr emptyCondition \<and>
   toSQLCondition sampleBuiltins [fieldA]
     (Some (QueryTree ''allof'' [] (Fin (- 1)) (Some [])
        [QueryTree ''single'' ''eq'' (Fin 0) (Some ''5'') [],
         QueryTree ''single'' ''eq'' (Fin 0) None []]))
     = Inr \<lparr> sql = ''('' @ quoted ''a'' @ '' = ?)'', params = [JNum (Fin 5)] \<rparr>"
  using null_literal_compiles_empty [of "QueryTree ''single'' ''eq'' (Fin 0) None []"
      sampleBuiltins "[fieldA]" "''allof''" "[]" "Fin (- 1)" "Some []"
      "[QueryTree ''single'' ''eq'' (Fin 0) (Some ''5'') []]" "[]"]
  by (simp add: fieldA_def leafCondition_def turnInto_def sampleBuiltins_def quoted_def dquote_def)

subsection \<open>Wildcards\<close>

text \<open>
  C8. \<open>replaceWildcards\<close> escapes \<open>%\<close> and \<open>_\<close> but not the escape character itself. For
  the literal backslash-percent the \<open>contains\<close> pattern is \<open>%\<close>, two backslashes, \<open>%\<close>,
  \<open>%\<close>: the two backslashes are one literal backslash and the literal's \<open>%\<close> is a wildcard
  again, so the pattern matches a text that has no \<open>%\<close> in it.
\<close>

theorem contains_pattern_backslash_wildcard:
  "toSQLCondition env [fieldA, fieldB]
     (Some (QueryTree ''single'' ''cn'' (Fin 1) (Some [backslash, CHR ''%'']) []))
   = Inr \<lparr> sql = quoted ''b'' @ '' LIKE ?'',
           params = [JStr [CHR ''%'', backslash, backslash, CHR ''%'', CHR ''%'']] \<rparr> \<and>
   likeMatch [CHR ''%'', backslash, backslash, CHR ''%'', CHR ''%''] [CHR ''a'', backslash, CHR ''b''] \<and>
   CHR ''%'' \<notin> set [CHR ''a'', backslash, CHR ''b'']"
  by (simp add: fieldA_def fieldB_def leafCondition_def likePattern_def turnInto_def
      replaceWildcards_def replaceAll_def backslash_def)

subsection \<open>Nominal values\<close>

text \<open>
  C7. \<open>getNominalValues\<close> lower-cases the text query but compares it with the column as
  stored, by a plain \<open>LIKE\<close>: for the query \<open>Set\<close> the pattern is \<open>set%\<close>, which the value
  \<open>Setosa\<close> does not match although \<open>Set\<close> is a prefix of it up to case.
\<close>

theorem nominal_values_case_sensitive:
  "nominalValuesSentence env irisTable None ''Set'' (Fin 0) =
     Inr (Some (''species'',
       ''SELECT DISTINCT '' @ quoted ''species'' @ '' FROM '' @ quoted ''iris'' @ '' WHERE '' @
         quoted ''species'' @ '' LIKE ? ORDER BY '' @ quoted ''species'' @ ''  LIMIT 128'',
       [JStr ''set%''])) \<and>
   \<not> likeMatch ''set%'' ''Setosa'' \<and>
   toLowerCase (take 3 ''Setosa'') = toLowerCase ''Set''"
  by (simp add: nominalValuesSentence_def irisTable_def emptyCondition_def toLowerCase_def
      lowerChar_def replaceWildcards_def replaceAll_def backslash_def quoted_def dquote_def)

subsection \<open>Writing instances\<close>

lemma pushInstances_abort:
  assumes "pushInstances poolQuery pre st = (Resolved (), st1)"
    and "pushInstance poolQuery inst st1 = (Rejected e, st2)"
  shows "pushInstances poolQuery (pre @ inst # post) st = (Rejected e, st2) \<and> st2 = st1"
  using assms(1)
proof (induction pre arbitrary: st)
  case Nil
  with assms(2) show ?case
    by (cases st1) (auto simp: pushInstance_def split: sum.splits)
next
  case (Cons x pre)
  obtain p st' where x: "pushInstance poolQuery x st = (p, st')"
    by (cases "pushInstance poolQuery x st") auto
  with Cons.prems have "p = Resolved ()"
    by (cases p) (auto split: promise.splits)
  with x Cons.prems Cons.IH [of st'] show ?case by simp
qed

text \<open>
  C3. \<open>pushInstance\<close> concatenates the table object, not its name, into the statement:
  for the table \<open>iris\<close> the pool is given an \<open>INSERT\<close> into a table named
  \<open>[object Object]\<close>.
\<close>

theorem pushInstances_wrong_table:
  "pushInstances recordingPool [[JStr ''setosa'']] ([], irisTable) =
     (Resolved (),
      [(''INSERT INTO '' @ quoted ''[object Object]'' @ ''('' @ quoted ''species'' @ '') VALUES ($1)'',
        [JStr ''setosa''])],
      irisTable\<lparr>updateQueue := [[JStr ''setosa'']]\<rparr>) \<and>
   table irisTable = ''iris''"
  by (simp add: pushInstance_def pushInstanceSentence_def pushInstanceValues_def
      toPostgresTemplate_def toPostgresTemplateLoop.simps decimal.simps recordingPool_def
      irisTable_def objectToString_def quoted_def dquote_def elementAt_def)

subsection \<open>Forwarding\<close>

lemma forwardLoop_retries:
  assumes "accepted (n + k)" and "\<forall>j < k. \<not> accepted (n + j)"
  shows "forwardLoop accepted arrivals n batch tbl trace =
           Some (n + k + 1,
                 tbl\<lparr>updateQueue := updateQueue tbl @ concat (map arrivals [n ..< n + k + 1])\<rparr>,
                 trace @ concat (replicate k [Send batch, Wait 5000]) @ [Send batch])"
  using assms
proof (induction k arbitrary: n tbl trace)
  case 0
  then show ?case by (subst forwardLoop.simps) simp
next
  case (Suc k)
  from Suc.prems have no: "\<not> accepted n" by (metis add.right_neutral zero_less_Suc)
  from Suc.prems have a: "accepted (Suc n + k)" by simp
  from Suc.prems have b: "\<forall>j < k. \<not> accepted (Suc n + j)"
    by (metis Suc_less_eq add_Suc_shift)
  have upt: "[n ..< Suc n + k + 1] = n # [Suc n ..< Suc n + k + 1]"
    by (simp add: upt_conv_Cons)
  show ?case
    using no Suc.IH [OF a b] upt
    by (subst forwardLoop.simps) (simp add: Let_def)
qed

lemma forwardLoop_returns_after_success:
  assumes "forwardLoop accepted arrivals n batch tbl trace = Some r"
  shows "\<exists>k. accepted (n + k)"
  using assms
proof (induction rule: forwardLoop.raw_induct [rotated 1, consumes 1])
  case (1 f accepted arrivals n batch tbl trace r)
  show ?case
  proof (cases "accepted n")
    case True
    then have "accepted (n + 0)" by simp
    then show ?thesis by blast
  next
    case False
    with "1"(2) have "f accepted arrivals (n + 1) batch
        (tbl\<lparr>updateQueue := updateQueue tbl @ arrivals n\<rparr>)
        (trace @ [Send batch, Wait 5000]) = Some r"
      by (simp add: Let_def)
    from "1"(1) [OF this] obtain k where "accepted (n + 1 + k)" by blast
    then have "accepted (n + (k + 1))" by (simp add: add.commute add.left_commute)
    then show ?thesis by blast
  qed
qed

lemma forwardLoop_never_gives_up:
  assumes "\<forall>j. \<not> accepted (n + j)"
  shows "forwardLoop accepted arrivals n batch tbl trace = None"
proof (cases "forwardLoop accepted arrivals n batch tbl trace")
  case None
  then show ?thesis .
next
  case (Some r)
  from forwardLoop_returns_after_success [OF this] assms show ?thesis by blast
qed

text \<open>
  C5. In a cycle that has work, if the first \<open>k\<close> forward calls fail and the next one
  succeeds, the worker sends the same batch \<open>k + 1\<close> times, a 5000 ms timer after each
  failure; the batch is the front of the queue, and what stays queued is the rest of the
  queue and the instances that arrived meanwhile, so nothing is lost and nothing sent stays
  queued. If no call ever succeeds the cycle never ends.
\<close>

theorem updateCycle_retries_same_batch:
  assumes work: "requiredUpdate tbl \<or> updateQueue tbl \<noteq> []"
  shows "(accepted (n + k) \<and> (\<forall>j < k. \<not> accepted (n + j)) \<longrightarrow>
            updateCycle accepted arrivals n tbl =
              Some (n + k + 1,
                    tbl\<lparr>updateQueue := drop 100 (updateQueue tbl) @
                                          concat (map arrivals [n ..< n + k + 1]),
                        requiredUpdate := False\<rparr>,
                    concat (replicate k [Send (take 100 (updateQueue tbl)), Wait 5000]) @
                    [Send (take 100 (updateQueue tbl))])) \<and>
         ((\<forall>j. \<not> accepted (n + j)) \<longrightarrow> updateCycle accepted arrivals n tbl = None)"
proof (intro conjI impI)
  assume a: "accepted (n + k) \<and> (\<forall>j < k. \<not> accepted (n + j))"
  have d: "drainQueue [] (updateQueue tbl) = (take 100 (updateQueue tbl), drop 100 (updateQueue tbl))"
    by (simp add: drainQueue_eq DEEPINT_UPDATE_INSTANCES_LIMIT_def)
  from a have "forwardLoop accepted arrivals n (take 100 (updateQueue tbl))
        (tbl\<lparr>updateQueue := drop 100 (updateQueue tbl), requiredUpdate := False\<rparr>) [] =
      Some (n + k + 1,
        tbl\<lparr>updateQueue := drop 100 (updateQueue tbl), requiredUpdate := False\<rparr>
           \<lparr>updateQueue := updateQueue (tbl\<lparr>updateQueue := drop 100 (updateQueue tbl), requiredUpdate := False\<rparr>)
              @ concat (map arrivals [n ..< n + k + 1])\<rparr>,
        [] @ concat (replicate k [Send (take 100 (updateQueue tbl)), Wait 5000]) @
        [Send (take 100 (updateQueue tbl))])"
    by (intro forwardLoop_retries) simp_all
  with work d show "updateCycle accepted arrivals n tbl =
              Some (n + k + 1,
                    tbl\<lparr>updateQueue := drop 100 (updateQueue tbl) @
                                          concat (map arrivals [n ..< n + k + 1]),
                        requiredUpdate := False\<rparr>,
                    concat (replicate k [Send (take 100 (updateQueue tbl)), Wait 5000]) @
                    [Send (take 100 (updateQueue tbl))])"
    by (auto simp: updateCycle_def)
next
  assume "\<forall>j. \<not> accepted (n + j)"
  then have "forwardLoop accepted arrivals n batch t trace = None" for batch t trace
    by (rule forwardLoop_never_gives_up)
  with work show "updateCycle accepted arrivals n tbl = None"
    by (auto simp: updateCycle_def split: prod.splits)
qed

theorem updateCycle_retries_same_batch_witness:
  "updateCycle (\<lambda>i. 2 \<le> i) (\<lambda>i. []) 0 threeQueued =
     Some (3, threeQueued\<lparr>updateQueue := [], requiredUpdate := False\<rparr>,
           [Send [[JStr ''A''], [JStr ''B''], [JStr ''C'']], Wait 5000,
            Send [[JStr ''A''], [JStr ''B''], [JStr ''C'']], Wait 5000,
            Send [[JStr ''A''], [JStr ''B''], [JStr ''C'']]])"
proof -
  have w: "requiredUpdate threeQueued \<or> updateQueue threeQueued \<noteq> []"
    by (simp add: threeQueued_def)
  have r: "replicate 2 x = [x, x]" for x :: "forwardEvent list"
    by (simp add: numeral_2_eq_2)
  from updateCycle_retries_same_batch [OF w, of "\<lambda>i. 2 \<le> i" 0 2 "\<lambda>i. []"]
  show ?thesis
    by (simp add: threeQueued_def r less_Suc_eq numeral_2_eq_2)
qed

subsection \<open>Errors of a query\<close>













end
